theory Spec2Isabelle
  imports Complex_Main "HOL-Library.Char_ord" "HOL-Library.List_Lexorder"
begin

section \<open>Strings\<close>

text \<open>
  Python's \<^verbatim>\<open>str.lower()\<close> on ASCII text: the letters \<open>A\<close> to \<open>Z\<close> are mapped to
  \<open>a\<close> to \<open>z\<close>, every other character is kept.
\<close>

definition lower_char :: "char \<Rightarrow> char" where
  "lower_char c =
     (case map_of (zip ''ABCDEFGHIJKLMNOPQRSTUVWXYZ'' ''abcdefghijklmnopqrstuvwxyz'') c of
        None \<Rightarrow> c
      | Some d \<Rightarrow> d)"

definition lower :: "string \<Rightarrow> string" where
  "lower s = map lower_char s"

text \<open>Python's \<^verbatim>\<open>sep.join(xs)\<close>.\<close>

fun join :: "string \<Rightarrow> string list \<Rightarrow> string" where
  "join sep [] = []"
| "join sep [x] = x"
| "join sep (x # y # ys) = x @ sep @ join sep (y # ys)"

definition dquote :: string where
  "dquote = [CHR 0x22]"

section \<open>The patterns of \<^verbatim>\<open>get_best_model\<close>\<close>

text \<open>
  The regular expressions of the \<^verbatim>\<open>patterns\<close> dictionary all start with the anchor
  \<^verbatim>\<open>^\<close> and have one of three shapes:
  \<^item> \<^verbatim>\<open>^lit\<close>: \<open>Lit lit\<close>;
  \<^item> \<^verbatim>\<open>^(a|b)rest\<close>: \<open>Alt [a, b] rest\<close>;
  \<^item> \<^verbatim>\<open>^(?!lit)\<close>, a negative lookahead: \<open>Not_Lit lit\<close>.
  \<open>re_find\<close> tells whether the expression is found in a string, which for an anchored
  expression is a test on the start of the string.
\<close>

datatype pattern = Lit string | Alt "string list" string | Not_Lit string

definition starts_with :: "string \<Rightarrow> string \<Rightarrow> bool" where
  "starts_with p s = (take (length p) s = p)"

fun re_find :: "pattern \<Rightarrow> string \<Rightarrow> bool" where
  "re_find (Lit p) s = starts_with p s"
| "re_find (Alt ps rest) s = list_ex (\<lambda>p. starts_with (p @ rest) s) ps"
| "re_find (Not_Lit p) s = (\<not> starts_with p s)"

text \<open>The dictionary \<^verbatim>\<open>patterns\<close>, in the order of its keyword arguments.\<close>

definition patterns :: "(string \<times> pattern) list" where
  "patterns =
     [(''base_model'', Not_Lit ''StackedEnsemble_''),
      (''deep_learning'', Lit ''DeepLearning_''),
      (''drf'', Alt [''DRF'', ''XRT''] ''_''),
      (''gbm'', Lit ''GBM_''),
      (''glm'', Lit ''GLM_''),
      (''stacked_ensemble'', Lit ''StackedEnsemble_''),
      (''xgboost'', Lit ''XGBoost_''),
      (''xrt'', Lit ''XRT_'')]"

definition higher_is_better :: "string list" where
  "higher_is_better = [''auc'', ''aucpr'']"

section \<open>Frames\<close>

text \<open>
  The leaderboard is an H2OFrame: named columns, and rows that hold a model identifier
  (the string column \<^verbatim>\<open>model_id\<close>) and a number in every metric column. \<open>metric r c\<close> is
  the number of row \<open>r\<close> in column \<open>c\<close>. Numbers are reals: a missing value or a NaN in
  a metric column, and the order that the backend gives to the strings of the column
  \<^verbatim>\<open>model_id\<close> when it is the column sorted by, are not modelled.
\<close>

record row =
  model_id :: string
  metric :: "string \<Rightarrow> real"

record frame =
  columns :: "string list"
  rows :: "row list"

text \<open>
  Modelled from the spec: \<^verbatim>\<open>H2OFrame.sort(by, ascending)\<close> is not part of the source file.
  The specification gives it as an operation that returns a new table, sorted by the column
  in the given direction, and stable: rows with equal values keep their order.
\<close>

definition sort_frame :: "frame \<Rightarrow> string \<Rightarrow> bool \<Rightarrow> frame" where
  "sort_frame fr by_col ascending =
     fr\<lparr>rows := sort_key (\<lambda>r. if ascending then metric r by_col else - metric r by_col) (rows fr)\<rparr>"

text \<open>
  Modelled from the spec: \<^verbatim>\<open>H2OFrame.grep(pattern)\<close> is not part of the source file. The
  specification has the sorted \<^verbatim>\<open>model_id\<close> column scanned from the top for the identifiers
  that match the pattern. \<open>grep\<close> gives the positions, counted from 0 and in increasing
  order, of the elements in which the pattern is found; the source converts the first of
  them with \<^verbatim>\<open>int\<close> and uses it as a row index.
\<close>

definition grep :: "string list \<Rightarrow> pattern \<Rightarrow> nat list" where
  "grep col pat = filter (\<lambda>i. re_find pat (col ! i)) [0..<length col]"

section \<open>The AutoML object\<close>

record model =
  model_category :: string

text \<open>
  The properties that the mixin reads. \<open>leader\<close> is \<open>None\<close> when the property gives
  Python's \<^verbatim>\<open>None\<close>.
\<close>

record automl =
  project_name :: string
  leader :: "model option"
  leaderboard :: frame
  event_log :: frame

datatype error =
    H2OValueError string
  | KeyError string
  | AttributeError
  | Row_out_of_range nat

text \<open>What a call reads from the object and asks of the model registry, in program order.\<close>

datatype event = Read_leader | Read_leaderboard | Get_model string

type_synonym 'a outcome = "event list \<times> (error + 'a)"

section \<open>\<^verbatim>\<open>get_best_model\<close>\<close>

text \<open>
  The inner function \<^verbatim>\<open>_best\<close>. Its \<^verbatim>\<open>leaderboard\<close> argument is sorted and searched; the
  position found is then read in \<^verbatim>\<open>self.leaderboard\<close>. The result is the identifier
  passed to \<^verbatim>\<open>h2o.get_model\<close>, which stands for the model returned.
\<close>

definition best :: "automl \<Rightarrow> frame \<Rightarrow> pattern \<Rightarrow> string \<Rightarrow> bool \<Rightarrow> string option outcome" where
  "best self lb pat criterion ascending =
     (let matches = grep (map model_id (rows (sort_frame lb criterion ascending))) pat in
      if length matches = 0 then ([], Inr None)
      else
        let i = hd matches in
        if i < length (rows (leaderboard self))
        then
          (let ident = model_id (rows (leaderboard self) ! i)
           in ([Read_leaderboard, Get_model ident], Inr (Some ident)))
        else ([Read_leaderboard], Inl (Row_out_of_range i)))"

definition default_criterion :: "string \<Rightarrow> string" where
  "default_criterion category =
     (if ''Regression'' = category then ''mean_residual_deviance''
      else if ''Binomial'' = category then ''auc''
      else ''mean_per_class_error'')"

text \<open>
  The dictionary \<^verbatim>\<open>{col.lower(): col for col in self.leaderboard.columns}\<close>: of two columns
  with the same lower-case name, the later one stays.
\<close>

definition criteria_of :: "string list \<Rightarrow> (string \<rightharpoonup> string)" where
  "criteria_of cols = map_of (rev (map (\<lambda>col. (lower col, col)) cols))"

definition criterion_message :: "string \<Rightarrow> string" where
  "criterion_message criterion =
     ''Criterion '' @ dquote @ criterion @ dquote @ '' is not present in the leaderboard!''"

definition algorithm_message :: "string \<Rightarrow> string" where
  "algorithm_message algorithm =
     ''Incorrect model_type specified '' @ dquote @ algorithm @ dquote
       @ ''. Has to be one of '' @ dquote
       @ join (dquote @ '', '' @ dquote) (sort (map fst patterns)) @ dquote"

text \<open>
  The body of \<^verbatim>\<open>get_best_model\<close> from the construction of \<^verbatim>\<open>criteria\<close> on, for a criterion
  that is a string; \<open>tr\<close> is what has been read so far.
\<close>

definition select_with :: "automl \<Rightarrow> string \<Rightarrow> event list \<Rightarrow> string \<Rightarrow> string option outcome" where
  "select_with self algorithm tr criterion =
     (let criteria = criteria_of (columns (leaderboard self));
          tr1 = tr @ [Read_leaderboard]
      in
        if criteria (lower criterion) = None
        then (tr1, Inl (H2OValueError (criterion_message criterion)))
        else
          case criteria criterion of
            None \<Rightarrow> (tr1, Inl (KeyError criterion))
          | Some col \<Rightarrow>
              (case map_of patterns (lower algorithm) of
                 None \<Rightarrow> (tr1, Inl (H2OValueError (algorithm_message algorithm)))
               | Some pat \<Rightarrow>
                   (let (tr2, res) =
                          best self (leaderboard self) pat col
                            (lower col \<notin> set higher_is_better)
                    in (tr1 @ [Read_leaderboard] @ tr2, res))))"

definition get_best_model :: "automl \<Rightarrow> string \<Rightarrow> string option \<Rightarrow> string option outcome" where
  "get_best_model self algorithm criterion =
     (case criterion of
        None \<Rightarrow>
          (case leader self of
             None \<Rightarrow> ([Read_leader], Inl AttributeError)
           | Some m \<Rightarrow> select_with self algorithm [Read_leader] (default_criterion (model_category m)))
      | Some c \<Rightarrow> select_with self algorithm [] c)"

section \<open>The selection in the words of the specification\<close>

text \<open>
  The specification sorts the leaderboard by the criterion column, scans the sorted
  \<^verbatim>\<open>model_id\<close> column from the top and selects the first identifier that matches the
  pattern of the family.
\<close>

definition spec_best_model :: "frame \<Rightarrow> pattern \<Rightarrow> string \<Rightarrow> bool \<Rightarrow> string option" where
  "spec_best_model lb pat col ascending =
     find (re_find pat) (map model_id (rows (sort_frame lb col ascending)))"

text \<open>
  \<open>ranks_before col ascending r1 r2\<close>: in a sort by column \<open>col\<close> in the given direction, row
  \<open>r1\<close> has a strictly better value than row \<open>r2\<close>.
\<close>

definition ranks_before :: "string \<Rightarrow> bool \<Rightarrow> row \<Rightarrow> row \<Rightarrow> bool" where
  "ranks_before col ascending r1 r2 =
     (if ascending then metric r1 col < metric r2 col else metric r2 col < metric r1 col)"

text \<open>
  Row \<open>j\<close> of a frame is the first of its best matches: it matches the pattern, no matching
  row has a better value, and every matching row above it in the frame has a worse value.
  Of the matching rows that are tied on the best value it is the first in the order of
  the frame.
\<close>

definition first_of_best_matches :: "frame \<Rightarrow> pattern \<Rightarrow> string \<Rightarrow> bool \<Rightarrow> nat \<Rightarrow> bool" where
  "first_of_best_matches lb pat col ascending j =
     (j < length (rows lb)
      \<and> re_find pat (model_id (rows lb ! j))
      \<and> list_all (\<lambda>r. re_find pat (model_id r) \<longrightarrow> \<not> ranks_before col ascending r (rows lb ! j))
           (rows lb)
      \<and> list_all (\<lambda>r. re_find pat (model_id r) \<longrightarrow> ranks_before col ascending (rows lb ! j) r)
           (take j (rows lb)))"

section \<open>Example leaderboards\<close>

text \<open>A row with a value in one metric column, and an AutoML object around a leaderboard.\<close>

definition metric_row :: "string \<Rightarrow> string \<Rightarrow> real \<Rightarrow> row" where
  "metric_row ident col v = \<lparr>model_id = ident, metric = (\<lambda>c. if c = col then v else 0)\<rparr>"

definition board :: "string list \<Rightarrow> row list \<Rightarrow> model option \<Rightarrow> automl" where
  "board cols rs l =
     \<lparr>project_name = ''example'', leader = l,
      leaderboard = \<lparr>columns = cols, rows = rs\<rparr>,
      event_log = \<lparr>columns = [], rows = []\<rparr>\<rparr>"

definition aml_auc :: automl where
  "aml_auc =
     board [''model_id'', ''auc'']
       [metric_row ''GBM_1'' ''auc'' 0.7, metric_row ''GBM_2'' ''auc'' 0.9,
        metric_row ''GBM_3'' ''auc'' 0.5]
       (Some \<lparr>model_category = ''Binomial''\<rparr>)"

definition aml_mse :: automl where
  "aml_mse =
     board [''model_id'', ''mse'']
       [metric_row ''GBM_1'' ''mse'' 0.7, metric_row ''GBM_2'' ''mse'' 0.9,
        metric_row ''GBM_3'' ''mse'' 0.5]
       (Some \<lparr>model_category = ''Regression''\<rparr>)"

definition aml_forest :: automl where
  "aml_forest =
     board [''model_id'', ''auc'']
       [metric_row ''DRF_1'' ''auc'' 0.5, metric_row ''XRT_1'' ''auc'' 0.9]
       (Some \<lparr>model_category = ''Binomial''\<rparr>)"

definition aml_empty :: automl where
  "aml_empty = board [''model_id'', ''auc''] [] None"

definition aml_ties :: automl where
  "aml_ties =
     board [''model_id'', ''auc'']
       [metric_row ''XRT_1'' ''auc'' 0.9, metric_row ''GBM_1'' ''auc'' 0.9,
        metric_row ''GBM_2'' ''auc'' 0.9]
       (Some \<lparr>model_category = ''Binomial''\<rparr>)"

section \<open>Strings and dictionaries\<close>

lemma lower_char_idem: "lower_char (lower_char c) = lower_char c"
  by (simp add: lower_char_def)

lemma lower_idem: "lower (lower s) = lower s"
  by (simp add: lower_def lower_char_idem)

lemma criteria_of_None: "criteria_of cols k = None \<longleftrightarrow> k \<notin> set (map lower cols)"
  by (simp add: criteria_of_def map_of_eq_None_iff image_image)

text \<open>Every key of \<^verbatim>\<open>criteria\<close> is in lower case.\<close>

lemma criteria_of_key_lower:
  assumes "criteria_of cols k = Some col"
  shows "lower k = k"
proof -
  from assms have "(k, col) \<in> set (rev (map (\<lambda>col. (lower col, col)) cols))"
    unfolding criteria_of_def by (rule map_of_SomeD)
  then obtain c where "k = lower c" by auto
  then show ?thesis by (simp add: lower_idem)
qed

lemma sorted_tags: "sort (map fst patterns) = map fst patterns"
  by code_simp

lemma algorithm_message_text:
  \<open>algorithm_message a =
     ''Incorrect model_type specified "'' @ a @ ''". Has to be one of "base_model", "deep_learning", "drf", "gbm", "glm", "stacked_ensemble", "xgboost", "xrt"''\<close>
  unfolding algorithm_message_def sorted_tags by (simp add: patterns_def dquote_def)

lemma drf_pattern:
  "re_find (Alt [''DRF'', ''XRT''] ''_'') s \<longleftrightarrow> starts_with ''DRF_'' s \<or> starts_with ''XRT_'' s"
  by simp

section \<open>Frames\<close>

lemma grep_bound: "i \<in> set (grep col pat) \<Longrightarrow> i < length col"
  by (simp add: grep_def)

lemma grep_empty: "grep col pat = [] \<longleftrightarrow> (\<forall>s \<in> set col. \<not> re_find pat s)"
  by (auto simp add: grep_def filter_empty_conv all_set_conv_all_nth)

lemma set_rows_sort_frame: "set (rows (sort_frame lb col asc)) = set (rows lb)"
  by (simp add: sort_frame_def)

lemma length_rows_sort_frame: "length (rows (sort_frame lb col asc)) = length (rows lb)"
  by (simp add: sort_frame_def)

text \<open>Rows with the same value in the sorted column keep their order.\<close>

lemma sort_frame_stable:
  "filter (\<lambda>r. metric r col = v) (rows (sort_frame fr col ascending))
     = filter (\<lambda>r. metric r col = v) (rows fr)"
proof (cases ascending)
  case True
  then show ?thesis by (simp add: sort_frame_def sort_key_stable)
next
  case False
  have "filter (\<lambda>r. - metric r col = - v) (sort_key (\<lambda>r. - metric r col) (rows fr))
      = filter (\<lambda>r. - metric r col = - v) (rows fr)"
    by (rule sort_key_stable)
  with False show ?thesis by (simp add: sort_frame_def)
qed

lemma find_by_filter: "find P xs = (case filter P xs of [] \<Rightarrow> None | x # _ \<Rightarrow> Some x)"
  by (induction xs) simp_all

text \<open>
  In a stable sort, the first element with a property \<open>P\<close> is the element of the input that
  is the first, in the order of the input, of the elements with \<open>P\<close> and the least key.
\<close>

lemma sort_key_first_match:
  fixes f :: "'a \<Rightarrow> 'b::linorder"
  assumes j: "j < length xs" and Pj: "P (xs ! j)"
    and least: "\<forall>r \<in> set xs. P r \<longrightarrow> f (xs ! j) \<le> f r"
    and first: "\<forall>j' < j. P (xs ! j') \<longrightarrow> f (xs ! j') \<noteq> f (xs ! j)"
  shows "\<exists>i < length xs. sort_key f xs ! i = xs ! j \<and> (\<forall>i' < i. \<not> P (sort_key f xs ! i'))"
proof -
  let ?ys = "sort_key f xs"
  let ?k = "f (xs ! j)"
  let ?Q = "\<lambda>y. f y = ?k \<and> P y"
  have "filter ?Q ?ys = filter P (filter (\<lambda>y. f y = ?k) ?ys)"
    by (simp add: conj_commute)
  also have "\<dots> = filter P (filter (\<lambda>y. f y = ?k) xs)"
    by (simp only: sort_key_stable)
  also have "\<dots> = filter ?Q xs"
    by (simp add: conj_commute)
  finally have "find ?Q ?ys = find ?Q xs"
    by (simp only: find_by_filter)
  moreover have "find ?Q xs = Some (xs ! j)"
    unfolding find_Some_iff using j Pj first by auto
  ultimately have "find ?Q ?ys = Some (xs ! j)" by simp
  then obtain i where i: "i < length ?ys" and Qi: "?Q (?ys ! i)" and eq: "xs ! j = ?ys ! i"
    and before: "\<forall>i' < i. \<not> ?Q (?ys ! i')"
    unfolding find_Some_iff by blast
  have "\<not> P (?ys ! i')" if "i' < i" for i'
  proof
    assume p: "P (?ys ! i')"
    have "sorted (map f ?ys)" by simp
    then have "map f ?ys ! i' \<le> map f ?ys ! i"
      using that i by (intro sorted_nth_mono) simp_all
    then have le: "f (?ys ! i') \<le> ?k"
      using that i Qi by simp
    have "i' < length ?ys" using that i by simp
    then have "?ys ! i' \<in> set ?ys" by (rule nth_mem)
    then have "?ys ! i' \<in> set xs" by simp
    with least p have "?k \<le> f (?ys ! i')" by blast
    with le have "f (?ys ! i') = ?k" by simp
    with p before that show False by blast
  qed
  with i eq show ?thesis by auto
qed

lemma grep_first:
  assumes "i < length col" and "re_find pat (col ! i)" and "\<forall>i' < i. \<not> re_find pat (col ! i')"
  shows "\<exists>rest. grep col pat = i # rest"
proof -
  have "[0..<length col] = [0..<i] @ i # [Suc i..<length col]"
    using assms(1)
    by (metis less_imp_le_nat upt_conv_Cons le_add_diff_inverse upt_add_eq_append zero_le)
  moreover have "filter (\<lambda>n. re_find pat (col ! n)) [0..<i] = []"
    using assms(3) by (simp add: filter_empty_conv)
  ultimately show ?thesis
    using assms(2) by (simp add: grep_def)
qed

lemma ranks_before_key:
  "ranks_before col asc r1 r2 \<longleftrightarrow>
     (if asc then metric r1 col else - metric r1 col)
       < (if asc then metric r2 col else - metric r2 col)"
  by (simp add: ranks_before_def)

text \<open>The first match of the sorted frame is the first of the best matches of the frame.\<close>

lemma first_match_of_sorted_frame:
  assumes fb: "first_of_best_matches lb pat col asc j"
  shows "\<exists>i < length (rows lb).
           rows (sort_frame lb col asc) ! i = rows lb ! j
         \<and> (\<forall>i' < i. \<not> re_find pat (model_id (rows (sort_frame lb col asc) ! i')))"
proof -
  let ?xs = "rows lb"
  let ?f = "\<lambda>r. if asc then metric r col else - metric r col"
  let ?P = "\<lambda>r. re_find pat (model_id r)"
  from fb have j: "j < length ?xs" and Pj: "?P (?xs ! j)"
    and a: "list_all (\<lambda>r. ?P r \<longrightarrow> \<not> ranks_before col asc r (?xs ! j)) ?xs"
    and b: "list_all (\<lambda>r. ?P r \<longrightarrow> ranks_before col asc (?xs ! j) r) (take j ?xs)"
    by (simp_all add: first_of_best_matches_def)
  have least: "\<forall>r \<in> set ?xs. ?P r \<longrightarrow> ?f (?xs ! j) \<le> ?f r"
    using a unfolding list_all_iff ranks_before_key by (meson not_less)
  have first: "\<forall>j' < j. ?P (?xs ! j') \<longrightarrow> ?f (?xs ! j') \<noteq> ?f (?xs ! j)"
  proof (intro allI impI)
    fix j' assume "j' < j" and p: "?P (?xs ! j')"
    then have "j' < length (take j ?xs)" and "take j ?xs ! j' = ?xs ! j'"
      using j by simp_all
    with b p have "ranks_before col asc (?xs ! j) (?xs ! j')"
      unfolding list_all_length by metis
    then have "?f (?xs ! j) < ?f (?xs ! j')"
      unfolding ranks_before_key .
    then show "?f (?xs ! j') \<noteq> ?f (?xs ! j)" by simp
  qed
  have "rows (sort_frame lb col asc) = sort_key ?f ?xs"
    by (simp add: sort_frame_def)
  with sort_key_first_match [of j ?xs ?P ?f, OF j Pj least first] show ?thesis
    by simp
qed

section \<open>What \<^verbatim>\<open>_best\<close> returns\<close>

lemma best_no_match:
  assumes "\<forall>r \<in> set (rows lb). \<not> re_find pat (model_id r)"
  shows "best self lb pat col asc = ([], Inr None)"
proof -
  have "grep (map model_id (rows (sort_frame lb col asc))) pat = []"
    using assms by (simp add: grep_empty set_rows_sort_frame)
  then show ?thesis by (simp add: best_def)
qed

text \<open>
  On the leaderboard of the object itself the row index is in range, and the identifier
  returned is the one at the position of the first match in the sorted frame, read in
  the frame as it was before sorting.
\<close>

lemma best_match:
  assumes "grep (map model_id (rows (sort_frame (leaderboard self) col asc))) pat = i # rest"
  shows "snd (best self (leaderboard self) pat col asc)
           = Inr (Some (model_id (rows (leaderboard self) ! i)))"
proof -
  have "i \<in> set (grep (map model_id (rows (sort_frame (leaderboard self) col asc))) pat)"
    using assms by simp
  then have "i < length (rows (leaderboard self))"
    using grep_bound length_rows_sort_frame by fastforce
  then show ?thesis using assms by (simp add: best_def Let_def)
qed

lemma Read_leader_best: "Read_leader \<notin> set (fst (best self lb pat c asc))"
  by (simp add: best_def Let_def)

lemma best_same_leaderboard:
  "leaderboard s1 = leaderboard s2 \<Longrightarrow> best s1 lb pat c asc = best s2 lb pat c asc"
  by (simp add: best_def Let_def)

section \<open>The stages of \<^verbatim>\<open>get_best_model\<close>\<close>

lemma snd_select_with:
  "snd (select_with self algorithm tr c) = snd (select_with self algorithm [] c)"
  by (simp add: select_with_def Let_def split: option.splits prod.splits)

lemma Read_leader_select_with:
  "Read_leader \<in> set (fst (select_with self algorithm tr c)) \<longleftrightarrow> Read_leader \<in> set tr"
  using Read_leader_best
  apply (simp add: select_with_def Let_def split: option.splits prod.splits)
  by (metis fst_conv)

lemma select_with_same_leaderboard:
  assumes "leaderboard s1 = leaderboard s2"
  shows "select_with s1 algorithm tr c = select_with s2 algorithm tr c"
proof -
  have "best s1 lb pat col asc = best s2 lb pat col asc" for lb pat col asc
    using assms by (rule best_same_leaderboard)
  then show ?thesis
    by (simp add: select_with_def assms Let_def split: option.splits)
qed

lemma select_with_leader:
  "select_with (self\<lparr>leader := l\<rparr>) algorithm tr c = select_with self algorithm tr c"
  by (rule select_with_same_leaderboard) simp

lemma get_best_model_best:
  assumes "criteria_of (columns (leaderboard self)) c = Some col"
    and "map_of patterns (lower algorithm) = Some pat"
  shows "snd (get_best_model self algorithm (Some c))
           = snd (best self (leaderboard self) pat col (lower col \<notin> set higher_is_better))"
proof -
  have "lower c = c" using assms(1) by (rule criteria_of_key_lower)
  then show ?thesis
    using assms by (simp add: get_best_model_def select_with_def Let_def split: prod.splits)
qed

text \<open>
  A criterion that passes the check of line 178 and is not written in lower case is not
  a key of \<^verbatim>\<open>criteria\<close>: line 182 raises \<^verbatim>\<open>KeyError\<close>.
\<close>

lemma mixed_case_criterion_KeyError:
  assumes "lower c \<in> set (map lower (columns (leaderboard self)))" and "lower c \<noteq> c"
  shows "snd (get_best_model self algorithm (Some c)) = Inl (KeyError c)"
proof -
  have 1: "criteria_of (columns (leaderboard self)) (lower c) \<noteq> None"
    using assms(1) by (simp add: criteria_of_None)
  have 2: "criteria_of (columns (leaderboard self)) c = None"
    using assms(2) criteria_of_key_lower
    by (cases "criteria_of (columns (leaderboard self)) c") auto
  show ?thesis
    using 1 2 by (simp add: get_best_model_def select_with_def Let_def)
qed

text \<open>
  For a criterion that is a key of \<^verbatim>\<open>criteria\<close>: an unknown family is refused with the
  list of the eight tags, and a family without a model in the leaderboard gives \<open>None\<close>.
\<close>

lemma unknown_algorithm_rejected:
  assumes "criteria_of (columns (leaderboard self)) c = Some col"
    and "lower algorithm \<notin> set (map fst patterns)"
  shows "snd (get_best_model self algorithm (Some c))
           = Inl (H2OValueError (algorithm_message algorithm))"
proof -
  have "lower c = c" using assms(1) by (rule criteria_of_key_lower)
  moreover have "map_of patterns (lower algorithm) = None"
    using assms(2) by (simp add: map_of_eq_None_iff)
  ultimately show ?thesis
    using assms(1) by (simp add: get_best_model_def select_with_def Let_def)
qed

lemma no_match_gives_None:
  assumes "criteria_of (columns (leaderboard self)) c = Some col"
    and "map_of patterns (lower algorithm) = Some pat"
    and "\<forall>r \<in> set (rows (leaderboard self)). \<not> re_find pat (model_id r)"
  shows "snd (get_best_model self algorithm (Some c)) = Inr None"
proof -
  have "lower c = c" using assms(1) by (rule criteria_of_key_lower)
  then show ?thesis
    using assms by (simp add: get_best_model_def select_with_def Let_def best_no_match)
qed

section \<open>The selection and the sort order\<close>

text \<open>
  Claim C1: \<^verbatim>\<open>get_best_model\<close> sorts the leaderboard by the criterion column and returns
  the first model of the sorted leaderboard that matches the family; with \<^verbatim>\<open>auc\<close> values
  0.7, 0.9, 0.5 the row with 0.9 is selected, with \<^verbatim>\<open>mse\<close> values 0.7, 0.9, 0.5 the row
  with 0.5.

  The code does not do this. \<^verbatim>\<open>_best\<close> finds the position of the first match in the sorted
  frame and reads that position in \<^verbatim>\<open>self.leaderboard\<close>, which is not sorted. On both
  example leaderboards the first match is at position 0 of the sorted frame, and the
  model returned is the one of row 0 of the leaderboard as given, with value 0.7; the
  selection in the words of the specification gives the rows with 0.9 and with 0.5.
\<close>

theorem best_model_read_from_unsorted_rows:
  "snd (get_best_model aml_auc ''gbm'' (Some ''auc'')) = Inr (Some ''GBM_1'')
   \<and> spec_best_model (leaderboard aml_auc) (Lit ''GBM_'') ''auc'' False = Some ''GBM_2''
   \<and> snd (get_best_model aml_mse ''gbm'' (Some ''mse'')) = Inr (Some ''GBM_1'')
   \<and> spec_best_model (leaderboard aml_mse) (Lit ''GBM_'') ''mse'' True = Some ''GBM_3''"
  by code_simp

text \<open>
  Claim C7: on a leaderboard with \<^verbatim>\<open>XRT_1\<close> and \<^verbatim>\<open>DRF_1\<close>, family \<^verbatim>\<open>drf\<close> with a criterion
  under which \<^verbatim>\<open>XRT_1\<close> ranks best returns \<^verbatim>\<open>XRT_1\<close>, and family \<^verbatim>\<open>xrt\<close> never returns
  \<^verbatim>\<open>DRF_1\<close>.

  The patterns are as the claim has them, and the code still returns \<^verbatim>\<open>DRF_1\<close> for both
  families when \<^verbatim>\<open>DRF_1\<close> is the first row of the leaderboard and \<^verbatim>\<open>XRT_1\<close> has the
  better \<^verbatim>\<open>auc\<close>: position 0 of the sorted frame holds \<^verbatim>\<open>XRT_1\<close>, position 0 of
  \<^verbatim>\<open>self.leaderboard\<close> holds \<^verbatim>\<open>DRF_1\<close>.
\<close>

theorem forest_families_read_unsorted_rows:
  "snd (get_best_model aml_forest ''xrt'' (Some ''auc'')) = Inr (Some ''DRF_1'')
   \<and> snd (get_best_model aml_forest ''drf'' (Some ''auc'')) = Inr (Some ''DRF_1'')
   \<and> spec_best_model (leaderboard aml_forest) (Alt [''DRF'', ''XRT''] ''_'') ''auc'' False
       = Some ''XRT_1''"
  by code_simp

section \<open>The case of the criterion\<close>

text \<open>
  Claim C2: the criterion is case-insensitive; \<^verbatim>\<open>criterion="AUC"\<close> and \<^verbatim>\<open>criterion="auc"\<close>
  give the same result and neither call raises an error.

  The code checks \<^verbatim>\<open>criterion.lower()\<close> against the keys of \<^verbatim>\<open>criteria\<close> and then looks
  up \<^verbatim>\<open>criteria[criterion]\<close>, with the criterion as it was given: \<^verbatim>\<open>"auc"\<close> selects a
  model and \<^verbatim>\<open>"AUC"\<close> raises \<^verbatim>\<open>KeyError\<close>.
\<close>

theorem criterion_case_raises_KeyError:
  "snd (get_best_model aml_auc ''gbm'' (Some ''auc'')) = Inr (Some ''GBM_1'')
   \<and> snd (get_best_model aml_auc ''gbm'' (Some ''AUC'')) = Inl (KeyError ''AUC'')"
  by code_simp

text \<open>
  Claim C4: a family whose lower-case form is not one of the eight tags is refused with
  an error that lists the eight tags, given a criterion that passes validation.

  The criterion \<^verbatim>\<open>"AUC"\<close> passes the check of the criterion on a leaderboard with the
  column \<^verbatim>\<open>auc\<close>, and the family \<^verbatim>\<open>"foo"\<close> is not a tag; the call ends in the
  \<^verbatim>\<open>KeyError\<close> of the lookup, before the family is looked at.
\<close>

theorem unknown_family_after_mixed_case_criterion:
  "lower ''AUC'' \<in> set (map lower (columns (leaderboard aml_auc)))
   \<and> lower ''foo'' \<notin> set (map fst patterns)
   \<and> snd (get_best_model aml_auc ''foo'' (Some ''AUC'')) = Inl (KeyError ''AUC'')"
  by code_simp

text \<open>
  Claim C5: for a valid family and a valid criterion, a leaderboard without a model of
  the family, the empty leaderboard included, gives \<open>None\<close> and never an error.

  On the empty leaderboard with the columns \<^verbatim>\<open>model_id\<close> and \<^verbatim>\<open>auc\<close>, the family
  \<^verbatim>\<open>"gbm"\<close> and the criterion \<^verbatim>\<open>"AUC"\<close>, the call ends in the \<^verbatim>\<open>KeyError\<close> of the lookup.
\<close>

theorem no_match_after_mixed_case_criterion:
  "rows (leaderboard aml_empty) = []
   \<and> lower ''AUC'' \<in> set (map lower (columns (leaderboard aml_empty)))
   \<and> snd (get_best_model aml_empty ''gbm'' (Some ''AUC'')) = Inl (KeyError ''AUC'')"
  by code_simp

section \<open>Validation of the criterion\<close>

text \<open>
  Claim C3: a criterion whose lower-case form is not among the lower-case column names of
  the leaderboard is refused with an \<^verbatim>\<open>H2OValueError\<close> whose message names the criterion,
  whether it was given explicitly, in any case, or is the default for the category of the
  leader.
\<close>

theorem unknown_criterion_rejected:
  assumes "lower c \<notin> set (map lower (columns (leaderboard self)))"
  shows "snd (get_best_model self algorithm (Some c)) =
           Inl (H2OValueError
             (''Criterion '' @ [CHR 0x22] @ c @ [CHR 0x22] @ '' is not present in the leaderboard!''))
       \<and> (\<forall>m. leader self = Some m \<and> default_criterion (model_category m) = c \<longrightarrow>
            snd (get_best_model self algorithm None) =
              Inl (H2OValueError
                (''Criterion '' @ [CHR 0x22] @ c @ [CHR 0x22] @ '' is not present in the leaderboard!'')))"
proof -
  have k: "criteria_of (columns (leaderboard self)) (lower c) = None"
    using assms by (simp only: criteria_of_None not_False_eq_True)
  have s: "snd (select_with self algorithm tr c) = Inl (H2OValueError (criterion_message c))" for tr
    by (simp add: select_with_def Let_def k)
  show ?thesis
    by (auto simp add: get_best_model_def s criterion_message_def dquote_def)
qed

theorem unknown_criterion_rejected_witness:
  "lower ''mean_residual_deviance'' \<notin> set (map lower (columns (leaderboard aml_mse)))
   \<and> snd (get_best_model aml_mse ''gbm'' (Some ''mean_residual_deviance'')) =
       Inl (H2OValueError
         (''Criterion '' @ [CHR 0x22] @ ''mean_residual_deviance'' @ [CHR 0x22]
            @ '' is not present in the leaderboard!''))
   \<and> snd (get_best_model aml_mse ''gbm'' None) =
       Inl (H2OValueError
         (''Criterion '' @ [CHR 0x22] @ ''mean_residual_deviance'' @ [CHR 0x22]
            @ '' is not present in the leaderboard!''))"
proof -
  have h: "lower ''mean_residual_deviance'' \<notin> set (map lower (columns (leaderboard aml_mse)))"
    by code_simp
  have m: "leader aml_mse = Some \<lparr>model_category = ''Regression''\<rparr>
      \<and> default_criterion (model_category \<lparr>model_category = ''Regression''\<rparr>)
          = ''mean_residual_deviance''"
    by (simp add: aml_mse_def board_def default_criterion_def)
  from unknown_criterion_rejected [OF h, of "''gbm''"] m h show ?thesis by blast
qed

section \<open>The default criterion\<close>

text \<open>
  Claim C6: without a criterion, the default is taken from the category of the leader:
  \<^verbatim>\<open>mean_residual_deviance\<close> for \<^verbatim>\<open>Regression\<close>, \<^verbatim>\<open>auc\<close> for \<^verbatim>\<open>Binomial\<close> and
  \<^verbatim>\<open>mean_per_class_error\<close> for every other category; the result of the call is then the
  result of the call with that criterion given explicitly.
\<close>

theorem default_criterion_as_explicit:
  assumes "leader self = Some m"
  shows "snd (get_best_model self algorithm None) =
           snd (get_best_model self algorithm (Some (default_criterion (model_category m))))
       \<and> default_criterion ''Regression'' = ''mean_residual_deviance''
       \<and> default_criterion ''Binomial'' = ''auc''
       \<and> (\<forall>category. category \<noteq> ''Regression'' \<and> category \<noteq> ''Binomial'' \<longrightarrow>
             default_criterion category = ''mean_per_class_error'')"
  using assms
  by (auto simp add: get_best_model_def default_criterion_def
      snd_select_with [of self algorithm "[Read_leader]"])

theorem default_criterion_as_explicit_witness:
  "leader aml_auc = Some \<lparr>model_category = ''Binomial''\<rparr>
   \<and> snd (get_best_model aml_auc ''gbm'' None) = snd (get_best_model aml_auc ''gbm'' (Some ''auc''))
   \<and> default_criterion ''Multinomial'' = ''mean_per_class_error''"
proof -
  have h: "leader aml_auc = Some \<lparr>model_category = ''Binomial''\<rparr>"
    by (simp add: aml_auc_def board_def)
  have n: "''Multinomial'' \<noteq> ''Regression'' \<and> ''Multinomial'' \<noteq> ''Binomial''"
    by simp
  from default_criterion_as_explicit [OF h, of "''gbm''"] n h show ?thesis by simp
qed

text \<open>
  Claim C10: with a criterion given, the leader is not read: the call has no read of
  \<^verbatim>\<open>self.leader\<close> among its reads, and what it does is the same whatever the leader is,
  also when there is none.
\<close>

theorem explicit_criterion_never_reads_leader:
  "Read_leader \<notin> set (fst (get_best_model self algorithm (Some c)))
   \<and> get_best_model (self\<lparr>leader := l\<rparr>) algorithm (Some c)
       = get_best_model self algorithm (Some c)"
  by (simp add: get_best_model_def Read_leader_select_with select_with_leader)

theorem explicit_criterion_never_reads_leader_witness:
  "Read_leader \<notin> set (fst (get_best_model aml_auc ''gbm'' (Some ''auc'')))
   \<and> get_best_model (aml_auc\<lparr>leader := None\<rparr>) ''gbm'' (Some ''auc'')
       = get_best_model aml_auc ''gbm'' (Some ''auc'')"
  by (rule explicit_criterion_never_reads_leader)

section \<open>The case of the family\<close>

text \<open>
  Claim C8: the family is case-insensitive: two spellings of a family with the same
  lower-case form, one of the eight tags, give the same call, whatever the leaderboard
  and the criterion.
\<close>

theorem algorithm_case_insensitive:
  assumes "lower a1 = lower a2" and "lower a1 \<in> set (map fst patterns)"
  shows "get_best_model self a1 criterion = get_best_model self a2 criterion"
proof -
  obtain pat where p: "map_of patterns (lower a1) = Some pat"
    using assms(2) by (metis map_of_eq_None_iff not_Some_eq set_map)
  have "select_with self a1 tr c = select_with self a2 tr c" for tr c
    using p assms(1) by (simp add: select_with_def Let_def split: option.splits)
  then show ?thesis
    by (simp add: get_best_model_def split: option.splits)
qed

theorem algorithm_case_insensitive_witness:
  "lower ''GBM'' = lower ''gbm'' \<and> lower ''GBM'' \<in> set (map fst patterns)
   \<and> get_best_model aml_auc ''GBM'' (Some ''auc'') = get_best_model aml_auc ''gbm'' (Some ''auc'')"
proof -
  have h1: "lower ''GBM'' = lower ''gbm''" by code_simp
  have h2: "lower ''GBM'' \<in> set (map fst patterns)" by code_simp
  from algorithm_case_insensitive [OF h1 h2] h1 h2 show ?thesis by blast
qed

section \<open>Determinism\<close>

text \<open>
  Claim C9: on a frozen snapshot the call is deterministic, with the ties of the sort
  broken by the order that the rows had before, by a stable sort.
  \<^item> Two objects with the same leaderboard and the same leader give the same call for the
    same arguments.
  \<^item> The rows with one value in the sorted column are in the sorted frame in the order
    they had before.
  \<^item> For a criterion that is a key of \<^verbatim>\<open>criteria\<close> and a family with the pattern \<open>pat\<close>, let
    row \<open>j\<close> of the leaderboard be the first, in the order of the leaderboard, of the
    matching rows with the best value in the criterion column. Then that row is the first
    match of the sorted frame, at a position \<open>i\<close>, and the call returns the model at
    position \<open>i\<close> of \<^verbatim>\<open>self.leaderboard\<close>.
\<close>

theorem deterministic_on_snapshot:
  "(leaderboard s1 = leaderboard s2 \<and> leader s1 = leader s2 \<longrightarrow>
      get_best_model s1 algorithm criterion = get_best_model s2 algorithm criterion)
   \<and> filter (\<lambda>r. metric r col = v) (rows (sort_frame fr col ascending))
       = filter (\<lambda>r. metric r col = v) (rows fr)
   \<and> (criteria_of (columns (leaderboard s1)) c = Some col
      \<and> map_of patterns (lower algorithm) = Some pat
      \<and> first_of_best_matches (leaderboard s1) pat col (lower col \<notin> set higher_is_better) j
      \<longrightarrow> (\<exists>i < length (rows (leaderboard s1)).
              rows (sort_frame (leaderboard s1) col (lower col \<notin> set higher_is_better)) ! i
                = rows (leaderboard s1) ! j
            \<and> (\<forall>i' < i. \<not> re_find pat (model_id
                  (rows (sort_frame (leaderboard s1) col (lower col \<notin> set higher_is_better)) ! i')))
            \<and> snd (get_best_model s1 algorithm (Some c))
                = Inr (Some (model_id (rows (leaderboard s1) ! i)))))"
proof (intro conjI impI)
  assume "leaderboard s1 = leaderboard s2 \<and> leader s1 = leader s2"
  moreover have "select_with s1 algorithm tr c' = select_with s2 algorithm tr c'"
    if "leaderboard s1 = leaderboard s2" for tr c'
    using that by (rule select_with_same_leaderboard)
  ultimately show "get_best_model s1 algorithm criterion = get_best_model s2 algorithm criterion"
    by (simp add: get_best_model_def split: option.splits)
next
  show "filter (\<lambda>r. metric r col = v) (rows (sort_frame fr col ascending))
      = filter (\<lambda>r. metric r col = v) (rows fr)"
    by (rule sort_frame_stable)
next
  let ?lb = "leaderboard s1"
  let ?asc = "lower col \<notin> set higher_is_better"
  let ?sorted = "rows (sort_frame ?lb col ?asc)"
  assume h: "criteria_of (columns ?lb) c = Some col
      \<and> map_of patterns (lower algorithm) = Some pat
      \<and> first_of_best_matches ?lb pat col ?asc j"
  then obtain i where i: "i < length (rows ?lb)" and eq: "?sorted ! i = rows ?lb ! j"
    and before: "\<forall>i' < i. \<not> re_find pat (model_id (?sorted ! i'))"
    using first_match_of_sorted_frame by blast
  from h have Pj: "re_find pat (model_id (rows ?lb ! j))"
    by (simp add: first_of_best_matches_def)
  have len: "length ?sorted = length (rows ?lb)"
    by (rule length_rows_sort_frame)
  have "\<exists>rest. grep (map model_id ?sorted) pat = i # rest"
  proof (rule grep_first)
    show "i < length (map model_id ?sorted)" using i len by simp
    show "re_find pat (map model_id ?sorted ! i)" using i len eq Pj by simp
    show "\<forall>i' < i. \<not> re_find pat (map model_id ?sorted ! i')" using i len before by simp
  qed
  then obtain rest where "grep (map model_id ?sorted) pat = i # rest" ..
  then have "snd (best s1 ?lb pat col ?asc) = Inr (Some (model_id (rows ?lb ! i)))"
    by (rule best_match)
  moreover have "snd (get_best_model s1 algorithm (Some c)) = snd (best s1 ?lb pat col ?asc)"
    using h by (intro get_best_model_best) simp_all
  ultimately have "snd (get_best_model s1 algorithm (Some c))
      = Inr (Some (model_id (rows ?lb ! i)))"
    by simp
  with i eq before
  show "\<exists>i < length (rows ?lb). ?sorted ! i = rows ?lb ! j
      \<and> (\<forall>i' < i. \<not> re_find pat (model_id (?sorted ! i')))
      \<and> snd (get_best_model s1 algorithm (Some c)) = Inr (Some (model_id (rows ?lb ! i)))"
    by blast
qed

text \<open>
  On a leaderboard with three rows of the same \<^verbatim>\<open>auc\<close>, \<^verbatim>\<open>XRT_1\<close>, \<^verbatim>\<open>GBM_1\<close> and \<^verbatim>\<open>GBM_2\<close>
  in this order, the first of the best matches of family \<^verbatim>\<open>gbm\<close> is row 1, \<^verbatim>\<open>GBM_1\<close>.
\<close>

theorem deterministic_on_snapshot_witness:
  "leaderboard aml_ties = leaderboard (aml_ties\<lparr>project_name := ''other''\<rparr>)
   \<and> leader aml_ties = leader (aml_ties\<lparr>project_name := ''other''\<rparr>)
   \<and> get_best_model aml_ties ''gbm'' (Some ''auc'')
       = get_best_model (aml_ties\<lparr>project_name := ''other''\<rparr>) ''gbm'' (Some ''auc'')
   \<and> criteria_of (columns (leaderboard aml_ties)) ''auc'' = Some ''auc''
   \<and> map_of patterns (lower ''gbm'') = Some (Lit ''GBM_'')
   \<and> first_of_best_matches (leaderboard aml_ties) (Lit ''GBM_'') ''auc'' False 1
   \<and> (\<exists>i < 3.
         model_id (rows (sort_frame (leaderboard aml_ties) ''auc'' False) ! i) = ''GBM_1''
       \<and> (\<forall>i' < i. \<not> re_find (Lit ''GBM_'')
             (model_id (rows (sort_frame (leaderboard aml_ties) ''auc'' False) ! i')))
       \<and> snd (get_best_model aml_ties ''gbm'' (Some ''auc''))
           = Inr (Some (model_id (rows (leaderboard aml_ties) ! i))))"
proof -
  note t = deterministic_on_snapshot
      [where ?s1.0 = aml_ties and ?s2.0 = "aml_ties\<lparr>project_name := ''other''\<rparr>"
        and algorithm = "''gbm''" and criterion = "Some ''auc''" and col = "''auc''"
        and c = "''auc''" and pat = "Lit ''GBM_''" and j = 1]
  have asc: "(lower ''auc'' \<notin> set higher_is_better) = False"
    by code_simp
  have h1: "criteria_of (columns (leaderboard aml_ties)) ''auc'' = Some ''auc''"
    by code_simp
  have h2: "map_of patterns (lower ''gbm'') = Some (Lit ''GBM_'')"
    by code_simp
  have h3: "first_of_best_matches (leaderboard aml_ties) (Lit ''GBM_'') ''auc'' False 1"
    by code_simp
  have d: "leaderboard aml_ties = leaderboard (aml_ties\<lparr>project_name := ''other''\<rparr>)
      \<and> leader aml_ties = leader (aml_ties\<lparr>project_name := ''other''\<rparr>)"
    by simp
  have r: "length (rows (leaderboard aml_ties)) = 3
      \<and> model_id (rows (leaderboard aml_ties) ! 1) = ''GBM_1''"
    by (simp add: aml_ties_def board_def metric_row_def)
  from t d have same: "get_best_model aml_ties ''gbm'' (Some ''auc'')
      = get_best_model (aml_ties\<lparr>project_name := ''other''\<rparr>) ''gbm'' (Some ''auc'')"
    by blast
  from t h1 h2 h3 have "\<exists>i < 3.
         model_id (rows (sort_frame (leaderboard aml_ties) ''auc'' False) ! i) = ''GBM_1''
       \<and> (\<forall>i' < i. \<not> re_find (Lit ''GBM_'')
             (model_id (rows (sort_frame (leaderboard aml_ties) ''auc'' False) ! i')))
       \<and> snd (get_best_model aml_ties ''gbm'' (Some ''auc''))
           = Inr (Some (model_id (rows (leaderboard aml_ties) ! i)))"
    unfolding asc using r by (metis (no_types, lifting))
  with d same h1 h2 h3 show ?thesis by blast
qed

end
